theory Spec2Isabelle
  imports Main
begin

section \<open>HID controller health checker: the monitor loop of \<open>hid_health_checker.py\<close>\<close>

text \<open>
  The program pings a list of controller addresses in an endless loop, keeps one record
  per address (\<open>online\<close>, \<open>changed\<close>, \<open>alerted\<close>), writes rows to a history table and
  sends alert and recovery emails. Everything outside the process (ping, the clock, the
  SMTP server, the SQLite file, the environment) is an input of the model: each external
  call has a scripted outcome, and everything the process does to the outside (rows, mails,
  log lines, pings) is recorded in the state.
\<close>

subsection \<open>Exceptions and outcomes of external calls\<close>

text \<open>
  \<open>KeyboardInterrupt\<close> is the only exception of the model that is not a subclass of
  Python's \<open>Exception\<close>; \<open>ExternalError\<close> stands for whatever subclass of \<open>Exception\<close>
  an external call (subprocess, sqlite3, smtplib, open) raises.
\<close>

datatype exn =
    KeyboardInterrupt
  | TypeError
  | KeyError
  | ValueError
  | EnvironmentError string
  | ExternalError

fun is_Exception :: "exn \<Rightarrow> bool" where
  "is_Exception KeyboardInterrupt = False"
| "is_Exception _ = True"

datatype 'a outcome = Returns 'a | Raises exn

subsection \<open>Timestamps\<close>

text \<open>
  A \<open>datetime\<close> is a count of microseconds together with the fact whether it carries a
  time zone: \<open>datetime.datetime.utcnow()\<close> gives a naive value,
  \<open>datetime.datetime.now(datetime.UTC)\<close> an aware one. Python subtracts two values
  only when both are naive or both are aware, and raises \<open>TypeError\<close> otherwise.
\<close>

datatype datetime = Naive int | Aware int

fun utcnow :: "int \<Rightarrow> datetime" where
  "utcnow t = Naive t"

fun now_UTC :: "int \<Rightarrow> datetime" where
  "now_UTC t = Aware t"

fun dt_sub :: "datetime \<Rightarrow> datetime \<Rightarrow> exn + int" where
  "dt_sub (Naive a) (Naive b) = Inr (a - b)"
| "dt_sub (Aware a) (Aware b) = Inr (a - b)"
| "dt_sub (Naive a) (Aware b) = Inl TypeError"
| "dt_sub (Aware a) (Naive b) = Inl TypeError"

text \<open>
  \<open>timedelta.total_seconds() >= n\<close> for an integer \<open>n\<close>, on the microsecond count of the
  difference, and \<open>int(total_seconds())\<close>, which truncates towards zero. The float that
  \<open>total_seconds\<close> returns is replaced by the exact quotient.
\<close>

definition seconds_ge :: "int \<Rightarrow> int \<Rightarrow> bool" where
  "seconds_ge d n = (d \<ge> n * 1000000)"

definition int_seconds :: "int \<Rightarrow> int" where
  "int_seconds d = (if d \<ge> 0 then d div 1000000 else - ((- d) div 1000000))"

subsection \<open>The per-controller record and the state of the process\<close>

type_synonym ip = string

record controller =
  online :: "bool option"
  changed :: datetime
  alerted :: bool

text \<open>
  An entry of the global \<open>controller_status\<close> dict is either a copy of a record
  (\<open>dict(s)\<close>, line 227) or the record object of \<open>status\<close> itself (\<open>s\<close>, line 231).
\<close>

datatype published = Snapshot controller | Live

text \<open>
  The second argument of \<open>log_status_change\<close> is the state name; the third is
  \<open>s["changed"].isoformat()\<close> at line 228 and the datetime object itself at line 234.
\<close>

datatype changed_arg = Iso datetime | Obj datetime

type_synonym row = "ip \<times> string \<times> changed_arg"

datatype mail =
    AlertMail ip int
  | RecoveredMail ip int

datatype logline =
    Error_no_ips
  | Info_monitoring nat int int
  | Warning_changed ip string
  | Error_alert_sent ip
  | Error_alert_failed exn
  | Info_recovery_sent ip
  | Error_recovery_failed exn
  | Info_ctrl_c
  | Exception_unhandled exn

record world =
  status :: "ip \<rightharpoonup> controller"
  controller_status :: "ip \<rightharpoonup> published"
  history :: "row list"
  mails :: "mail list"
  logged :: "logline list"
  pings :: "ip list"

subsection \<open>What the outside answers during one pass of the loop body\<close>

text \<open>
  One field per external call of the loop body: \<open>ping\<close> (line 212), the clock read by
  the observation (line 218 or line 223, of which a pass runs at most one), the two calls
  of \<open>log_status_change\<close> (lines 228 and 234), the clock read by the alert block (line
  238) and by the recovery block (line 254), and \<open>send_email\<close> (line 245 or line 256).
  Clock readings are microseconds. A cycle has the answers for each pass of its \<open>for\<close>
  loop, by position in \<open>ips\<close>, and the outcome of \<open>time.sleep\<close>.

  Not modelled: the calls of \<open>logging\<close> never raise; \<open>KeyboardInterrupt\<close> arrives only
  as the outcome of an external call; the text of a mail is reduced to its kind, the
  address and the number it prints.
\<close>

record step_env =
  ping_outcome :: "bool outcome"
  now_observe :: int
  db_transition :: "unit outcome"
  db_cycle :: "unit outcome"
  now_alert :: int
  now_recovery :: int
  mail_outcome :: "unit outcome"

record cycle_env =
  host_env :: "nat \<Rightarrow> step_env"
  sleep_outcome :: "unit outcome"

subsection \<open>The loop body of \<open>main\<close> (lines 211 to 260)\<close>

definition state_name :: "bool \<Rightarrow> string" where
  "state_name up = (if up then ''ONLINE'' else ''OFFLINE'')"

text \<open>\<open>log_status_change\<close>: one row inserted when the call returns, none when it raises.\<close>

definition log_status_change ::
  "unit outcome \<Rightarrow> ip \<Rightarrow> string \<Rightarrow> changed_arg \<Rightarrow> world \<Rightarrow> world \<times> exn option" where
  "log_status_change out i st c w =
     (case out of
        Returns _ \<Rightarrow> (w\<lparr>history := history w @ [(i, st, c)]\<rparr>, None)
      | Raises x \<Rightarrow> (w, Some x))"

text \<open>
  Lines 215 to 228: the first observation and the state change. The result is the state,
  the record \<open>s\<close> as mutated so far, and the exception that left the block, if any.
\<close>

definition main_observe ::
  "ip \<Rightarrow> bool \<Rightarrow> step_env \<Rightarrow> world \<Rightarrow> controller \<Rightarrow> (world \<times> controller) \<times> exn option" where
  "main_observe i up e w s =
     (if online s = None then
        ((w, s\<lparr>online := Some up, changed := utcnow (now_observe e)\<rparr>), None)
      else if Some up \<noteq> online s then
        (let s1 = s\<lparr>online := Some up, changed := now_UTC (now_observe e), alerted := False\<rparr>;
             st = state_name up;
             w1 = w\<lparr>logged := logged w @ [Warning_changed i st]\<rparr>;
             w2 = w1\<lparr>controller_status := (controller_status w1)(i \<mapsto> Snapshot s1)\<rparr>
         in case log_status_change (db_transition e) i st (Iso (changed s1)) w2 of
              (w3, r) \<Rightarrow> ((w3, s1), r))
      else ((w, s), None))"

text \<open>Lines 230 to 234: publish the record object and insert the per-cycle row.\<close>

definition main_publish ::
  "ip \<Rightarrow> bool \<Rightarrow> step_env \<Rightarrow> world \<Rightarrow> controller \<Rightarrow> (world \<times> controller) \<times> exn option" where
  "main_publish i up e w s =
     (let w1 = w\<lparr>controller_status := (controller_status w)(i \<mapsto> Live)\<rparr>
      in case log_status_change (db_cycle e) i (state_name up) (Obj (changed s)) w1 of
           (w2, r) \<Rightarrow> ((w2, s), r))"

text \<open>
  \<open>send_email\<close> inside \<open>try ... except Exception\<close>: the attempt is recorded; an
  \<open>Exception\<close> is caught (\<open>Inr (Some x)\<close>), anything else leaves the block (\<open>Inl x\<close>).
\<close>

definition try_send_email :: "unit outcome \<Rightarrow> mail \<Rightarrow> world \<Rightarrow> world \<times> (exn + exn option)" where
  "try_send_email out m w =
     (let w1 = w\<lparr>mails := mails w @ [m]\<rparr>
      in case out of
           Returns _ \<Rightarrow> (w1, Inr None)
         | Raises x \<Rightarrow> (if is_Exception x then (w1, Inr (Some x)) else (w1, Inl x)))"

text \<open>Lines 236 to 260: the alert and the recovery.\<close>

definition main_handle_alerts ::
  "int \<Rightarrow> ip \<Rightarrow> bool \<Rightarrow> step_env \<Rightarrow> world \<Rightarrow> controller \<Rightarrow> (world \<times> controller) \<times> exn option" where
  "main_handle_alerts alert_after i up e w s =
     (if \<not> up then
        (case dt_sub (utcnow (now_alert e)) (changed s) of
           Inl x \<Rightarrow> ((w, s), Some x)
         | Inr offline \<Rightarrow>
             (if seconds_ge offline alert_after \<and> \<not> alerted s then
                (case try_send_email (mail_outcome e) (AlertMail i (int_seconds offline)) w of
                   (w1, Inr None) \<Rightarrow>
                     ((w1\<lparr>logged := logged w1 @ [Error_alert_sent i]\<rparr>, s\<lparr>alerted := True\<rparr>), None)
                 | (w1, Inr (Some x)) \<Rightarrow>
                     ((w1\<lparr>logged := logged w1 @ [Error_alert_failed x]\<rparr>, s), None)
                 | (w1, Inl x) \<Rightarrow> ((w1, s), Some x))
              else ((w, s), None)))
      else
        (if alerted s then
           (case try_send_email (mail_outcome e) (RecoveredMail i (now_recovery e)) w of
              (w1, Inr None) \<Rightarrow>
                ((w1\<lparr>logged := logged w1 @ [Info_recovery_sent i]\<rparr>, s\<lparr>alerted := False\<rparr>), None)
            | (w1, Inr (Some x)) \<Rightarrow>
                ((w1\<lparr>logged := logged w1 @ [Error_recovery_failed x]\<rparr>, s\<lparr>alerted := False\<rparr>), None)
            | (w1, Inl x) \<Rightarrow> ((w1, s), Some x))
         else ((w, s), None)))"

text \<open>
  The three blocks in sequence on the record \<open>s = status[ip]\<close>. The record is an object
  shared with \<open>status\<close>, so whatever was assigned before an exception stays assigned.
\<close>

definition main_blocks ::
  "int \<Rightarrow> ip \<Rightarrow> bool \<Rightarrow> step_env \<Rightarrow> world \<Rightarrow> controller \<Rightarrow> (world \<times> controller) \<times> exn option" where
  "main_blocks alert_after i up e w s =
     (case main_observe i up e w s of
        (ws1, Some x) \<Rightarrow> (ws1, Some x)
      | ((w1, s1), None) \<Rightarrow>
          (case main_publish i up e w1 s1 of
             (ws2, Some x) \<Rightarrow> (ws2, Some x)
           | ((w2, s2), None) \<Rightarrow> main_handle_alerts alert_after i up e w2 s2))"

text \<open>One pass of the body of \<open>for ip in ips\<close>: line 212, line 213, then the blocks.\<close>

definition main_host :: "int \<Rightarrow> ip \<Rightarrow> step_env \<Rightarrow> world \<Rightarrow> world \<times> exn option" where
  "main_host alert_after i e w =
     (let w0 = w\<lparr>pings := pings w @ [i]\<rparr>
      in case ping_outcome e of
           Raises x \<Rightarrow> (w0, Some x)
         | Returns up \<Rightarrow>
             (case status w0 i of
                None \<Rightarrow> (w0, Some KeyError)
              | Some s \<Rightarrow>
                  (case main_blocks alert_after i up e w0 s of
                     ((w1, s1), r) \<Rightarrow> (w1\<lparr>status := (status w1)(i \<mapsto> s1)\<rparr>, r))))"

subsection \<open>The loops of \<open>main\<close> (lines 209 to 267)\<close>

text \<open>
  \<open>for ip in ips\<close>: the \<open>k\<close>-th pass of a cycle gets the \<open>k\<close>-th answers of the
  outside; the first exception ends the loop.
\<close>

fun main_for :: "int \<Rightarrow> ip list \<Rightarrow> nat \<Rightarrow> (nat \<Rightarrow> step_env) \<Rightarrow> world \<Rightarrow> world \<times> exn option" where
  "main_for alert_after [] k env w = (w, None)"
| "main_for alert_after (i # ips) k env w =
     (case main_host alert_after i (env k) w of
        (w1, Some x) \<Rightarrow> (w1, Some x)
      | (w1, None) \<Rightarrow> main_for alert_after ips (Suc k) env w1)"

text \<open>\<open>time.sleep(args.interval)\<close> raises \<open>ValueError\<close> on a negative length.\<close>

definition main_sleep :: "int \<Rightarrow> unit outcome \<Rightarrow> exn option" where
  "main_sleep interval out =
     (if interval < 0 then Some ValueError
      else case out of Returns _ \<Rightarrow> None | Raises x \<Rightarrow> Some x)"

text \<open>
  How the process ends: \<open>sys.exit(n)\<close>, an exception nobody catches, or \<open>main\<close>
  returning. The exit status of the last two is the interpreter's.
\<close>

datatype ending = SysExit nat | Uncaught exn | Returned

fun exit_status :: "ending \<Rightarrow> nat" where
  "exit_status (SysExit n) = n"
| "exit_status Returned = 0"
| "exit_status (Uncaught KeyboardInterrupt) = 130"
| "exit_status (Uncaught x) = 1"

text \<open>Lines 263 to 267: the two handlers around the \<open>while\<close> loop.\<close>

definition main_except :: "exn \<Rightarrow> world \<Rightarrow> world \<times> ending" where
  "main_except x w =
     (if x = KeyboardInterrupt then (w\<lparr>logged := logged w @ [Info_ctrl_c]\<rparr>, Returned)
      else if is_Exception x then (w\<lparr>logged := logged w @ [Exception_unhandled x]\<rparr>, SysExit 2)
      else (w, Uncaught x))"

text \<open>
  \<open>while True\<close> inside the \<open>try\<close>: one element of the script per cycle. The loop has no
  exit of its own, so a script that is used up leaves the process running: \<open>None\<close>.
\<close>

fun main_while ::
  "int \<Rightarrow> int \<Rightarrow> ip list \<Rightarrow> cycle_env list \<Rightarrow> world \<Rightarrow> world \<times> ending option" where
  "main_while alert_after interval ips [] w = (w, None)"
| "main_while alert_after interval ips (c # cs) w =
     (case main_for alert_after ips 0 (host_env c) w of
        (w1, Some x) \<Rightarrow> (case main_except x w1 of (w2, t) \<Rightarrow> (w2, Some t))
      | (w1, None) \<Rightarrow>
          (case main_sleep interval (sleep_outcome c) of
             Some x \<Rightarrow> (case main_except x w1 of (w2, t) \<Rightarrow> (w2, Some t))
           | None \<Rightarrow> main_while alert_after interval ips cs w1))"

subsection \<open>Start of \<open>main\<close> (lines 175 to 207) and \<open>get_email_cfg\<close>\<close>

definition email_keys :: "string list" where
  "email_keys = [''EMAIL_HOST'', ''EMAIL_PORT'', ''EMAIL_USER'', ''EMAIL_PASS'', ''EMAIL_TO'']"

fun join :: "string \<Rightarrow> string list \<Rightarrow> string" where
  "join sep [] = []"
| "join sep [x] = x"
| "join sep (x # y # ys) = x @ sep @ join sep (y # ys)"

datatype cfg_value = StrVal string | IntVal int

text \<open>
  \<open>getenv\<close> is the environment; \<open>py_int\<close> is Python's \<open>int\<close> on a string, \<open>None\<close> where
  it raises \<open>ValueError\<close>.
\<close>

definition get_email_cfg ::
  "(string \<Rightarrow> int option) \<Rightarrow> (string \<rightharpoonup> string) \<Rightarrow> exn + (string \<times> cfg_value) list" where
  "get_email_cfg py_int getenv =
     (let cfg = map (\<lambda>k. (k, getenv k)) email_keys
      in if None \<in> set (map snd cfg) then
           Inl (EnvironmentError (''Missing environment variables: '' @
                  join '', '' (map fst (filter (\<lambda>kv. snd kv = None) cfg))))
         else
           (case getenv ''EMAIL_PORT'' of
              None \<Rightarrow> Inl KeyError
            | Some p \<Rightarrow>
                (case py_int p of
                   None \<Rightarrow> Inl ValueError
                 | Some n \<Rightarrow>
                     Inr (map (\<lambda>kv. (fst kv,
                            if fst kv = ''EMAIL_PORT'' then IntVal n
                            else StrVal (case snd kv of Some v \<Rightarrow> v | None \<Rightarrow> []))) cfg))))"

record start_env =
  init_db_first :: "unit outcome"
  load_ips_outcome :: "ip list outcome"
  getenv :: "string \<rightharpoonup> string"
  py_int :: "string \<Rightarrow> int option"
  now_start :: "nat \<Rightarrow> int"
  init_db_second :: "unit outcome"
  start_dashboard_outcome :: "unit outcome"

definition world0 :: world where
  "world0 = \<lparr>status = Map.empty, controller_status = Map.empty, history = [], mails = [],
             logged = [], pings = []\<rparr>"

text \<open>Lines 191 to 194: the dict comprehension; a later duplicate replaces an earlier one.\<close>

fun init_status :: "(nat \<Rightarrow> int) \<Rightarrow> nat \<Rightarrow> ip list \<Rightarrow> (ip \<rightharpoonup> controller) \<Rightarrow> (ip \<rightharpoonup> controller)" where
  "init_status clock k [] m = m"
| "init_status clock k (i # ips) m =
     init_status clock (Suc k) ips
       (m(i \<mapsto> \<lparr>online = None, changed = now_UTC (clock k), alerted = False\<rparr>))"

text \<open>
  \<open>main\<close> with the parsed arguments \<open>interval\<close> and \<open>alert_after\<close>. Everything before the
  \<open>try\<close> is outside every handler.
\<close>

definition main :: "start_env \<Rightarrow> int \<Rightarrow> int \<Rightarrow> cycle_env list \<Rightarrow> world \<times> ending option" where
  "main se interval alert_after script =
     (case init_db_first se of
        Raises x \<Rightarrow> (world0, Some (Uncaught x))
      | Returns _ \<Rightarrow>
          (case load_ips_outcome se of
             Raises x \<Rightarrow> (world0, Some (Uncaught x))
           | Returns ips \<Rightarrow>
               (if ips = [] then (world0\<lparr>logged := [Error_no_ips]\<rparr>, Some (SysExit 1))
                else
                  (case get_email_cfg (py_int se) (getenv se) of
                     Inl x \<Rightarrow> (world0, Some (Uncaught x))
                   | Inr email_cfg \<Rightarrow>
                       (let w1 = world0\<lparr>status := init_status (now_start se) 0 ips Map.empty,
                                         logged := [Info_monitoring (length ips) interval alert_after]\<rparr>
                        in case init_db_second se of
                             Raises x \<Rightarrow> (w1, Some (Uncaught x))
                           | Returns _ \<Rightarrow>
                               (case start_dashboard_outcome se of
                                  Raises x \<Rightarrow> (w1, Some (Uncaught x))
                                | Returns _ \<Rightarrow> main_while alert_after interval ips script w1))))))"

subsection \<open>The dashboard (lines 70 to 112) and what it can see during an observation\<close>

text \<open>
  \<open>dashboard\<close> hands the global dict \<open>controller_status\<close> itself to the template, which
  reads \<open>info['online']\<close> and \<open>info['changed']\<close> of every entry. \<open>info\<close> is the dict an
  entry refers to: the copy made at line 227, or the record object of \<open>status\<close>.
\<close>

definition info :: "world \<Rightarrow> ip \<Rightarrow> controller option" where
  "info w i =
     (case controller_status w i of
        None \<Rightarrow> None
      | Some (Snapshot r) \<Rightarrow> Some r
      | Some Live \<Rightarrow> status w i)"

text \<open>
  The row the template prints for an entry: \<open>'ONLINE' if info['online'] else 'OFFLINE'\<close>
  and \<open>info['changed']\<close>.
\<close>

definition row_of :: "controller \<Rightarrow> string \<times> datetime" where
  "row_of r = (if online r = Some True then ''ONLINE'' else ''OFFLINE'', changed r)"

definition dashboard :: "world \<Rightarrow> ip \<Rightarrow> (string \<times> datetime) option" where
  "dashboard w i = map_option row_of (info w i)"

text \<open>
  The record \<open>s\<close> is mutated in place: \<open>put i s w\<close> is the state of the process when the
  object \<open>status[i]\<close> holds \<open>s\<close>.
\<close>

definition put :: "ip \<Rightarrow> controller \<Rightarrow> world \<Rightarrow> world" where
  "put i s w = w\<lparr>status := (status w)(i \<mapsto> s)\<rparr>"

text \<open>
  Lines 215 to 228 statement by statement: the state of the process after each
  statement of the branch taken (lines 217, 218; or lines 222, 223, 224, 226, 227, 228).
  The dashboard runs in a thread of its own, so these are states it can read.
\<close>

definition main_observe_trace :: "ip \<Rightarrow> bool \<Rightarrow> step_env \<Rightarrow> world \<Rightarrow> controller \<Rightarrow> world list" where
  "main_observe_trace i up e w s =
     (if online s = None then
        (let s1 = s\<lparr>online := Some up\<rparr>;
             s2 = s1\<lparr>changed := utcnow (now_observe e)\<rparr>
         in [put i s1 w, put i s2 w])
      else if Some up \<noteq> online s then
        (let s1 = s\<lparr>online := Some up\<rparr>;
             s2 = s1\<lparr>changed := now_UTC (now_observe e)\<rparr>;
             s3 = s2\<lparr>alerted := False\<rparr>;
             st = state_name up;
             w1 = w\<lparr>logged := logged w @ [Warning_changed i st]\<rparr>;
             w2 = w1\<lparr>controller_status := (controller_status w1)(i \<mapsto> Snapshot s3)\<rparr>;
             w3 = fst (log_status_change (db_transition e) i st (Iso (changed s3)) w2)
         in [put i s1 w, put i s2 w, put i s3 w, put i s3 w1, put i s3 w2, put i s3 w3])
      else [])"

text \<open>The same states within one pass of the loop body: after line 212 and line 213.\<close>

definition main_host_trace :: "ip \<Rightarrow> step_env \<Rightarrow> world \<Rightarrow> world list" where
  "main_host_trace i e w =
     (let w0 = w\<lparr>pings := pings w @ [i]\<rparr>
      in case ping_outcome e of
           Raises x \<Rightarrow> []
         | Returns up \<Rightarrow>
             (case status w0 i of
                None \<Rightarrow> []
              | Some s \<Rightarrow> main_observe_trace i up e w0 s))"

subsection \<open>The invariant of a record\<close>

text \<open>The \<open>alerted\<close> flag is set only in a record whose state is offline.\<close>

definition alerted_inv :: "controller \<Rightarrow> bool" where
  "alerted_inv s = (alerted s \<longrightarrow> online s = Some False)"

subsection \<open>Scripts of the outside used in the examples\<close>

text \<open>
  One address; every external call returns; the clock reads \<open>t\<close> microseconds in the
  whole pass; \<open>ping\<close> answers \<open>up\<close>.
\<close>

definition answers :: "bool \<Rightarrow> int \<Rightarrow> step_env" where
  "answers up t =
     \<lparr>ping_outcome = Returns up, now_observe = t, db_transition = Returns (),
      db_cycle = Returns (), now_alert = t, now_recovery = t, mail_outcome = Returns ()\<rparr>"

definition cycle :: "step_env \<Rightarrow> cycle_env" where
  "cycle e = \<lparr>host_env = (\<lambda>k. e), sleep_outcome = Returns ()\<rparr>"

definition start_ok :: "ip list \<Rightarrow> start_env" where
  "start_ok ips =
     \<lparr>init_db_first = Returns (), load_ips_outcome = Returns ips,
      getenv = [''EMAIL_HOST'' \<mapsto> ''smtp.example.org'', ''EMAIL_PORT'' \<mapsto> ''465'',
                ''EMAIL_USER'' \<mapsto> ''monitor'', ''EMAIL_PASS'' \<mapsto> ''secret'',
                ''EMAIL_TO'' \<mapsto> ''ops@example.org''],
      py_int = (\<lambda>p. if p = ''465'' then Some 465 else None),
      now_start = (\<lambda>k. 0),
      init_db_second = Returns (), start_dashboard_outcome = Returns ()\<rparr>"

section \<open>Properties of the loop body\<close>

subsection \<open>What each block changes\<close>

lemma log_status_change_frame:
  "status (fst (log_status_change out i st c w)) = status w"
  "mails (fst (log_status_change out i st c w)) = mails w"
  "logged (fst (log_status_change out i st c w)) = logged w"
  "pings (fst (log_status_change out i st c w)) = pings w"
  by (simp_all add: log_status_change_def split: outcome.splits)

lemma try_send_email_frame:
  "status (fst (try_send_email out m w)) = status w"
  "history (fst (try_send_email out m w)) = history w"
  "pings (fst (try_send_email out m w)) = pings w"
  "mails (fst (try_send_email out m w)) = mails w @ [m]"
  by (simp_all add: try_send_email_def Let_def split: outcome.splits)

lemma observe_record:
  "snd (fst (main_observe i up e w s)) =
     (if online s = None then s\<lparr>online := Some up, changed := Naive (now_observe e)\<rparr>
      else if Some up \<noteq> online s
        then s\<lparr>online := Some up, changed := Aware (now_observe e), alerted := False\<rparr>
      else s)"
  by (simp add: main_observe_def Let_def case_prod_beta)

lemma observe_frame:
  "status (fst (fst (main_observe i up e w s))) = status w"
  "mails (fst (fst (main_observe i up e w s))) = mails w"
  "pings (fst (fst (main_observe i up e w s))) = pings w"
  by (simp_all add: main_observe_def Let_def case_prod_beta log_status_change_frame)

lemma publish_record: "snd (fst (main_publish i up e w s)) = s"
  by (simp add: main_publish_def Let_def case_prod_beta)

lemma publish_frame:
  "status (fst (fst (main_publish i up e w s))) = status w"
  "mails (fst (fst (main_publish i up e w s))) = mails w"
  "logged (fst (fst (main_publish i up e w s))) = logged w"
  "pings (fst (fst (main_publish i up e w s))) = pings w"
  by (simp_all add: main_publish_def Let_def case_prod_beta log_status_change_frame)

lemma alerts_frame:
  "status (fst (fst (main_handle_alerts a i up e w s))) = status w"
  "history (fst (fst (main_handle_alerts a i up e w s))) = history w"
  "pings (fst (fst (main_handle_alerts a i up e w s))) = pings w"
  by (simp_all add: main_handle_alerts_def try_send_email_def Let_def
      split: sum.splits option.splits outcome.splits)

lemma alerts_record:
  "online (snd (fst (main_handle_alerts a i up e w s))) = online s"
  "changed (snd (fst (main_handle_alerts a i up e w s))) = changed s"
  by (simp_all add: main_handle_alerts_def try_send_email_def Let_def
      split: sum.splits option.splits outcome.splits)

lemma alerts_alerted:
  "alerted (snd (fst (main_handle_alerts a i up e w s))) \<Longrightarrow> \<not> up \<or> alerted s"
  by (simp add: main_handle_alerts_def try_send_email_def Let_def
      split: sum.splits option.splits outcome.splits if_splits)

lemma blocks_unfold:
  "main_blocks a i up e w s =
     (let o1 = main_observe i up e w s in
      if snd o1 \<noteq> None then o1
      else let p1 = main_publish i up e (fst (fst o1)) (snd (fst o1)) in
        if snd p1 \<noteq> None then p1
        else main_handle_alerts a i up e (fst (fst p1)) (snd (fst p1)))"
  by (auto simp add: main_blocks_def Let_def split: prod.splits option.splits)

lemma blocks_cases:
  "main_blocks a i up e w s =
     (if snd (main_observe i up e w s) \<noteq> None then main_observe i up e w s
      else if snd (main_publish i up e (fst (fst (main_observe i up e w s))) (snd (fst (main_observe i up e w s)))) \<noteq> None
        then main_publish i up e (fst (fst (main_observe i up e w s))) (snd (fst (main_observe i up e w s)))
      else main_handle_alerts a i up e
             (fst (fst (main_publish i up e (fst (fst (main_observe i up e w s))) (snd (fst (main_observe i up e w s))))))
             (snd (fst (main_observe i up e w s))))"
  by (simp add: blocks_unfold Let_def publish_record)

lemma blocks_frame:
  "status (fst (fst (main_blocks a i up e w s))) = status w"
  "pings (fst (fst (main_blocks a i up e w s))) = pings w"
  by (simp_all add: blocks_cases observe_frame publish_frame alerts_frame)

lemma blocks_online: "online (snd (fst (main_blocks a i up e w s))) = Some up"
  by (auto simp add: blocks_cases observe_record publish_record alerts_record)

lemma blocks_changed:
  "changed (snd (fst (main_blocks a i up e w s))) =
     (if online s = None then Naive (now_observe e)
      else if Some up \<noteq> online s then Aware (now_observe e) else changed s)"
  by (simp add: blocks_cases observe_record publish_record alerts_record)

lemma blocks_alerted:
  assumes "alerted_inv s" and "alerted (snd (fst (main_blocks a i up e w s)))"
  shows "\<not> up"
proof
  assume up
  let ?s1 = "snd (fst (main_observe i up e w s))"
  have s1: "\<not> alerted ?s1"
    using assms(1) \<open>up\<close> by (auto simp add: observe_record alerted_inv_def)
  have "alerted ?s1"
    using assms(2) \<open>up\<close>
    by (auto simp add: blocks_cases publish_record split: if_splits dest: alerts_alerted)
  with s1 show False by simp
qed

lemma host_status:
  "status (fst (main_host a i e w)) =
     (case ping_outcome e of
        Raises x \<Rightarrow> status w
      | Returns up \<Rightarrow>
          (case status w i of
             None \<Rightarrow> status w
           | Some s \<Rightarrow> (status w)(i \<mapsto> snd (fst (main_blocks a i up e (w\<lparr>pings := pings w @ [i]\<rparr>) s)))))"
  by (simp add: main_host_def Let_def case_prod_beta blocks_frame split: outcome.splits option.splits)

lemma host_inv:
  assumes "\<And>j s. status w j = Some s \<Longrightarrow> alerted_inv s"
    and "status (fst (main_host a i e w)) j = Some s"
  shows "alerted_inv s"
  using assms
  by (auto simp add: host_status alerted_inv_def blocks_online
      split: outcome.splits option.splits if_splits dest!: blocks_alerted[unfolded alerted_inv_def, rotated])

subsection \<open>The invariant along the loops\<close>

lemma for_inv:
  assumes "\<And>j s. status w j = Some s \<Longrightarrow> alerted_inv s"
    and "status (fst (main_for a ips k env w)) j = Some s"
  shows "alerted_inv s"
  using assms
proof (induction ips arbitrary: k w)
  case Nil
  then show ?case by simp
next
  case (Cons i ips)
  obtain w1 r where h: "main_host a i (env k) w = (w1, r)"
    by (cases "main_host a i (env k) w")
  have inv1: "\<And>j s. status w1 j = Some s \<Longrightarrow> alerted_inv s"
    using host_inv [of w a i "env k"] Cons.prems(1) h by simp
  show ?case
  proof (cases r)
    case None
    with Cons.prems(2) h have "status (fst (main_for a ips (Suc k) env w1)) j = Some s"
      by simp
    with Cons.IH inv1 show ?thesis by blast
  next
    case (Some x)
    with Cons.prems(2) h have "status w1 j = Some s" by simp
    with inv1 show ?thesis by blast
  qed
qed

lemma except_frame:
  "status (fst (main_except x w)) = status w"
  "mails (fst (main_except x w)) = mails w"
  "history (fst (main_except x w)) = history w"
  "pings (fst (main_except x w)) = pings w"
  by (simp_all add: main_except_def)

lemma while_inv:
  assumes "\<And>j s. status w j = Some s \<Longrightarrow> alerted_inv s"
    and "status (fst (main_while a n ips cs w)) j = Some s"
  shows "alerted_inv s"
  using assms
proof (induction cs arbitrary: w)
  case Nil
  then show ?case by simp
next
  case (Cons c cs)
  obtain w1 r where h: "main_for a ips 0 (host_env c) w = (w1, r)"
    by (cases "main_for a ips 0 (host_env c) w")
  have inv1: "\<And>j s. status w1 j = Some s \<Longrightarrow> alerted_inv s"
    using for_inv [of w a ips 0 "host_env c"] Cons.prems(1) h by simp
  show ?case
  proof (cases "r = None \<and> main_sleep n (sleep_outcome c) = None")
    case True
    with Cons.prems(2) h have "status (fst (main_while a n ips cs w1)) j = Some s"
      by simp
    with Cons.IH inv1 show ?thesis by blast
  next
    case False
    with Cons.prems(2) h have "status w1 j = Some s"
      by (auto simp add: case_prod_beta except_frame split: option.splits)
    with inv1 show ?thesis by blast
  qed
qed

lemma init_status_inv:
  assumes "\<And>j s. m j = Some s \<Longrightarrow> alerted_inv s"
    and "init_status clock k ips m j = Some s"
  shows "alerted_inv s"
  using assms
proof (induction ips arbitrary: k m)
  case Nil
  then show ?case by simp
next
  case (Cons i ips)
  show ?case
  proof (rule Cons.IH [OF _ Cons.prems(2) [simplified]])
    fix j' s'
    assume "(m(i \<mapsto> \<lparr>online = None, changed = Aware (clock k), alerted = False\<rparr>)) j' = Some s'"
    then show "alerted_inv s'"
      using Cons.prems(1) by (auto simp add: alerted_inv_def split: if_splits)
  qed
qed

lemma main_inv:
  assumes "status (fst (main se n a script)) j = Some s"
  shows "alerted_inv s"
proof (cases "\<exists>ips. load_ips_outcome se = Returns ips \<and> ips \<noteq> [] \<and> init_db_first se = Returns ()
          \<and> (\<exists>c. get_email_cfg (py_int se) (getenv se) = Inr c)
          \<and> init_db_second se = Returns () \<and> start_dashboard_outcome se = Returns ()")
  case True
  then obtain ips c where h: "load_ips_outcome se = Returns ips" "ips \<noteq> []"
    "init_db_first se = Returns ()" "get_email_cfg (py_int se) (getenv se) = Inr c"
    "init_db_second se = Returns ()" "start_dashboard_outcome se = Returns ()"
    by blast
  let ?w1 = "world0\<lparr>status := init_status (now_start se) 0 ips Map.empty,
                     logged := [Info_monitoring (length ips) n a]\<rparr>"
  have m: "main se n a script = main_while a n ips script ?w1"
    using h by (simp add: main_def Let_def)
  have w1: "\<And>j s. status ?w1 j = Some s \<Longrightarrow> alerted_inv s"
    using init_status_inv [of Map.empty] by simp
  show ?thesis
  proof (rule while_inv [of ?w1 a n ips script j s])
    fix j' s'
    assume "status ?w1 j' = Some s'"
    then show "alerted_inv s'" by (rule w1)
  next
    show "status (fst (main_while a n ips script ?w1)) j = Some s"
      unfolding m [symmetric] by (rule assms)
  qed
next
  case False
  have "status (fst (main se n a script)) = Map.empty \<or>
        status (fst (main se n a script)) =
          init_status (now_start se) 0 (case load_ips_outcome se of Returns ips \<Rightarrow> ips | Raises x \<Rightarrow> []) Map.empty"
    using False
    by (cases "init_db_first se"; cases "load_ips_outcome se";
        cases "get_email_cfg (py_int se) (getenv se)"; cases "init_db_second se";
        cases "start_dashboard_outcome se")
       (simp_all add: main_def Let_def world0_def)
  then show ?thesis
    using assms init_status_inv [of Map.empty] by auto
qed


lemmas run_defs =
  main_def main_host_def main_blocks_def main_observe_def main_publish_def
  main_handle_alerts_def try_send_email_def log_status_change_def main_sleep_def
  main_except_def get_email_cfg_def email_keys_def world0_def state_name_def
  seconds_ge_def int_seconds_def answers_def cycle_def start_ok_def Let_def

lemma host_keeps_inv:
  assumes "status w i = Some s0" and "alerted_inv s0"
  shows "\<exists>s1. status (fst (main_host a i e w)) i = Some s1 \<and> alerted_inv s1"
proof (cases "ping_outcome e")
  case (Raises x)
  with assms show ?thesis by (simp add: host_status)
next
  case (Returns up)
  let ?s1 = "snd (fst (main_blocks a i up e (w\<lparr>pings := pings w @ [i]\<rparr>) s0))"
  have st: "status (fst (main_host a i e w)) i = Some ?s1"
    using Returns assms(1) by (simp add: host_status)
  have "alerted_inv ?s1"
    unfolding alerted_inv_def
  proof
    assume "alerted ?s1"
    with assms(2) have "\<not> up" by (rule blocks_alerted)
    then show "online ?s1 = Some False" by (simp add: blocks_online)
  qed
  with st show ?thesis by blast
qed

lemma host_other: "j \<noteq> i \<Longrightarrow> status (fst (main_host a i e w)) j = status w j"
  by (simp add: host_status split: outcome.splits option.splits)

subsection \<open>Mails, log lines and exceptions of one pass\<close>

lemma alerts_logged:
  "\<exists>ls. logged (fst (fst (main_handle_alerts a i up e w s))) = logged w @ ls \<and>
        (\<forall>j st. Warning_changed j st \<notin> set ls)"
  by (simp add: main_handle_alerts_def try_send_email_def Let_def
      split: sum.splits option.splits outcome.splits)

lemma observe_raises:
  "snd (main_observe i up e w s) =
     (if online s \<noteq> None \<and> Some up \<noteq> online s
      then (case db_transition e of Returns u \<Rightarrow> None | Raises x \<Rightarrow> Some x) else None)"
  by (simp add: main_observe_def log_status_change_def Let_def split: outcome.splits)

lemma publish_raises:
  "snd (main_publish i up e w s) = (case db_cycle e of Returns u \<Rightarrow> None | Raises x \<Rightarrow> Some x)"
  by (simp add: main_publish_def log_status_change_def Let_def split: outcome.splits)

lemma alerts_mails:
  "mails (fst (fst (main_handle_alerts a i up e w s))) = mails w @
     (if up then (if alerted s then [RecoveredMail i (now_recovery e)] else [])
      else (case changed s of
              Naive c \<Rightarrow> if seconds_ge (now_alert e - c) a \<and> \<not> alerted s
                         then [AlertMail i (int_seconds (now_alert e - c))] else []
            | Aware c \<Rightarrow> []))"
  by (simp add: main_handle_alerts_def try_send_email_def Let_def
      split: sum.splits option.splits outcome.splits datetime.splits)

lemma alerts_record_eq:
  "snd (fst (main_handle_alerts a i up e w s)) =
     s\<lparr>alerted :=
         (if up then alerted s \<and> (\<exists>x. mail_outcome e = Raises x \<and> \<not> is_Exception x)
          else alerted s \<or>
            (case changed s of
               Aware c \<Rightarrow> False
             | Naive c \<Rightarrow> seconds_ge (now_alert e - c) a \<and> mail_outcome e = Returns ()))\<rparr>"
  by (auto simp add: main_handle_alerts_def try_send_email_def Let_def
      split: sum.splits option.splits outcome.splits datetime.splits)

lemma alerts_raises_eq:
  "snd (main_handle_alerts a i up e w s) =
     (if up then
        (if alerted s then
           (case mail_outcome e of
              Returns u \<Rightarrow> None
            | Raises x \<Rightarrow> if is_Exception x then None else Some x)
         else None)
      else
        (case changed s of
           Aware c \<Rightarrow> Some TypeError
         | Naive c \<Rightarrow> if seconds_ge (now_alert e - c) a \<and> \<not> alerted s
                      then (case mail_outcome e of
                              Returns u \<Rightarrow> None
                            | Raises x \<Rightarrow> if is_Exception x then None else Some x)
                      else None))"
  by (simp add: main_handle_alerts_def try_send_email_def Let_def
      split: sum.splits option.splits outcome.splits datetime.splits)

lemma blocks_mails:
  "mails (fst (fst (main_blocks a i up e w s))) =
     (if snd (main_observe i up e w s) \<noteq> None \<or> db_cycle e \<noteq> Returns () then mails w
      else mails (fst (fst (main_handle_alerts a i up e w (snd (fst (main_observe i up e w s)))))))"
  by (auto simp add: blocks_cases observe_frame publish_frame publish_raises alerts_mails
      split: outcome.splits)

lemma blocks_raises:
  "snd (main_blocks a i up e w s) =
     (if snd (main_observe i up e w s) \<noteq> None then snd (main_observe i up e w s)
      else if db_cycle e \<noteq> Returns () then (case db_cycle e of Returns u \<Rightarrow> None | Raises x \<Rightarrow> Some x)
      else snd (main_handle_alerts a i up e w (snd (fst (main_observe i up e w s)))))"
  by (auto simp add: blocks_cases publish_raises alerts_raises_eq split: outcome.splits)

lemma blocks_record:
  "snd (fst (main_blocks a i up e w s)) =
     (if snd (main_observe i up e w s) \<noteq> None \<or> db_cycle e \<noteq> Returns ()
      then snd (fst (main_observe i up e w s))
      else snd (fst (main_handle_alerts a i up e w (snd (fst (main_observe i up e w s))))))"
  by (auto simp add: blocks_cases publish_raises publish_record alerts_record_eq
      split: outcome.splits)

lemma host_mails:
  "mails (fst (main_host a i e w)) =
     (case ping_outcome e of
        Raises x \<Rightarrow> mails w
      | Returns up \<Rightarrow>
          (case status w i of
             None \<Rightarrow> mails w
           | Some s \<Rightarrow> mails (fst (fst (main_blocks a i up e (w\<lparr>pings := pings w @ [i]\<rparr>) s)))))"
  by (simp add: main_host_def Let_def case_prod_beta split: outcome.splits option.splits)

lemma host_raises:
  "snd (main_host a i e w) =
     (case ping_outcome e of
        Raises x \<Rightarrow> Some x
      | Returns up \<Rightarrow>
          (case status w i of
             None \<Rightarrow> Some KeyError
           | Some s \<Rightarrow> snd (main_blocks a i up e (w\<lparr>pings := pings w @ [i]\<rparr>) s)))"
  by (simp add: main_host_def Let_def case_prod_beta split: outcome.splits option.splits)


lemma host_record:
  "status w i = Some s \<Longrightarrow> ping_outcome e = Returns up \<Longrightarrow>
   status (fst (main_host a i e w)) i =
     Some (snd (fst (main_blocks a i up e (w\<lparr>pings := pings w @ [i]\<rparr>) s)))"
  by (simp add: host_status)

lemma no_change_pass:
  assumes "status w i = Some s" and "online s = Some False" and "\<not> alerted s"
    and "changed s = Naive c" and "ping_outcome e = Returns False"
    and "db_cycle e = Returns ()" and "seconds_ge (now_alert e - c) a"
  shows "mails (fst (main_host a i e w)) = mails w @ [AlertMail i (int_seconds (now_alert e - c))]"
    and "\<exists>s2. status (fst (main_host a i e w)) i = Some s2 \<and>
           (alerted s2 \<longleftrightarrow> mail_outcome e = Returns ())"
proof -
  let ?w0 = "w\<lparr>pings := pings w @ [i]\<rparr>"
  have obs: "main_observe i False e ?w0 s = ((?w0, s), None)"
    using assms(2) by (simp add: main_observe_def)
  show "mails (fst (main_host a i e w)) = mails w @ [AlertMail i (int_seconds (now_alert e - c))]"
    using assms by (simp add: host_mails blocks_mails obs alerts_mails)
  have "status (fst (main_host a i e w)) i =
      Some (snd (fst (main_blocks a i False e ?w0 s)))"
    using assms(1,5) by (rule host_record)
  moreover have "alerted (snd (fst (main_blocks a i False e ?w0 s))) \<longleftrightarrow> mail_outcome e = Returns ()"
    using assms by (simp add: blocks_record obs alerts_record_eq)
  ultimately show "\<exists>s2. status (fst (main_host a i e w)) i = Some s2 \<and>
           (alerted s2 \<longleftrightarrow> mail_outcome e = Returns ())"
    by blast
qed

subsection \<open>The start and the end of the process\<close>

lemma get_email_cfg_missing:
  assumes "\<exists>k \<in> set email_keys. env k = None"
  shows "\<exists>m. get_email_cfg p env = Inl (EnvironmentError m)"
proof -
  have "None \<in> set (map snd (map (\<lambda>k. (k, env k)) email_keys))"
    using assms by (auto simp add: image_iff intro: sym)
  then show ?thesis
    by (simp add: get_email_cfg_def Let_def del: set_map)
qed

lemma exit_status_uncaught: "0 < exit_status (Uncaught x)"
  by (cases x) simp_all


subsection \<open>Recovery mails, the change to offline, and the history rows\<close>

lemma host_no_recovery:
  assumes inv: "\<And>j s. status w j = Some s \<Longrightarrow> alerted_inv s"
    and nr: "\<And>j t. RecoveredMail j t \<notin> set (mails w)"
  shows "RecoveredMail j t \<notin> set (mails (fst (main_host a i e w)))"
proof (cases "ping_outcome e")
  case (Raises x)
  with nr show ?thesis by (simp add: host_mails)
next
  case (Returns up)
  show ?thesis
  proof (cases "status w i")
    case None
    with Returns nr show ?thesis by (simp add: host_mails)
  next
    case (Some s)
    let ?wp = "w\<lparr>pings := pings w @ [i]\<rparr>"
    let ?s1 = "snd (fst (main_observe i up e ?wp s))"
    have "alerted_inv s" using inv Some by blast
    then have "up \<Longrightarrow> \<not> alerted ?s1"
      by (auto simp add: observe_record alerted_inv_def)
    then have "RecoveredMail j t \<notin> set (mails (fst (fst (main_handle_alerts a i up e ?wp ?s1))))"
      using nr by (auto simp add: alerts_mails split: datetime.splits)
    then have "RecoveredMail j t \<notin> set (mails (fst (fst (main_blocks a i up e ?wp s))))"
      using nr by (simp add: blocks_mails)
    with Returns Some show ?thesis by (simp add: host_mails)
  qed
qed

lemma for_no_recovery:
  assumes "\<And>j s. status w j = Some s \<Longrightarrow> alerted_inv s"
    and "\<And>j t. RecoveredMail j t \<notin> set (mails w)"
  shows "RecoveredMail j t \<notin> set (mails (fst (main_for a ips k env w)))"
  using assms
proof (induction ips arbitrary: k w)
  case Nil
  then show ?case by simp
next
  case (Cons i ips)
  obtain w1 r where h: "main_host a i (env k) w = (w1, r)"
    by (cases "main_host a i (env k) w")
  have inv1: "\<And>j s. status w1 j = Some s \<Longrightarrow> alerted_inv s"
    using host_inv [of w a i "env k"] Cons.prems(1) h by simp
  have nr1: "\<And>j t. RecoveredMail j t \<notin> set (mails w1)"
    using host_no_recovery [of w _ _ a i "env k"] Cons.prems h by simp
  show ?case
  proof (cases r)
    case None
    with h have "main_for a (i # ips) k env w = main_for a ips (Suc k) env w1" by simp
    with Cons.IH [OF inv1 nr1] show ?thesis by simp
  next
    case (Some x)
    with h nr1 show ?thesis by simp
  qed
qed

lemma while_no_recovery:
  assumes "\<And>j s. status w j = Some s \<Longrightarrow> alerted_inv s"
    and "\<And>j t. RecoveredMail j t \<notin> set (mails w)"
  shows "RecoveredMail j t \<notin> set (mails (fst (main_while a n ips cs w)))"
  using assms
proof (induction cs arbitrary: w)
  case Nil
  then show ?case by simp
next
  case (Cons c cs)
  obtain w1 r where h: "main_for a ips 0 (host_env c) w = (w1, r)"
    by (cases "main_for a ips 0 (host_env c) w")
  have inv1: "\<And>j s. status w1 j = Some s \<Longrightarrow> alerted_inv s"
    using for_inv [of w a ips 0 "host_env c"] Cons.prems(1) h by simp
  have nr1: "\<And>j t. RecoveredMail j t \<notin> set (mails w1)"
    using for_no_recovery [of w _ _ a ips 0 "host_env c"] Cons.prems h by simp
  show ?case
  proof (cases "r = None \<and> main_sleep n (sleep_outcome c) = None")
    case True
    with h have "main_while a n ips (c # cs) w = main_while a n ips cs w1" by simp
    with Cons.IH [OF inv1 nr1] show ?thesis by simp
  next
    case False
    with h have "mails (fst (main_while a n ips (c # cs) w)) = mails w1"
      by (auto simp add: case_prod_beta except_frame split: option.splits)
    with nr1 show ?thesis by simp
  qed
qed

lemma main_cases:
  "(\<exists>ips. ips \<noteq> [] \<and>
      main se n a script = main_while a n ips script
        (world0\<lparr>status := init_status (now_start se) 0 ips Map.empty,
                logged := [Info_monitoring (length ips) n a]\<rparr>)) \<or>
   (\<exists>t. snd (main se n a script) = Some t \<and> mails (fst (main se n a script)) = [] \<and>
        pings (fst (main se n a script)) = [] \<and> history (fst (main se n a script)) = [])"
  by (cases "init_db_first se"; cases "load_ips_outcome se";
      cases "get_email_cfg (py_int se) (getenv se)"; cases "init_db_second se";
      cases "start_dashboard_outcome se")
     (auto simp add: main_def Let_def world0_def)

lemma main_no_recovery: "RecoveredMail j t \<notin> set (mails (fst (main se n a script)))"
proof -
  from main_cases [of se n a script] show ?thesis
  proof
    assume "\<exists>ips. ips \<noteq> [] \<and>
      main se n a script = main_while a n ips script
        (world0\<lparr>status := init_status (now_start se) 0 ips Map.empty,
                logged := [Info_monitoring (length ips) n a]\<rparr>)"
    then obtain ips where m: "main se n a script = main_while a n ips script
        (world0\<lparr>status := init_status (now_start se) 0 ips Map.empty,
                logged := [Info_monitoring (length ips) n a]\<rparr>)" by blast
    let ?wi = "world0\<lparr>status := init_status (now_start se) 0 ips Map.empty,
                logged := [Info_monitoring (length ips) n a]\<rparr>"
    have inv: "\<And>j s. status ?wi j = Some s \<Longrightarrow> alerted_inv s"
      using init_status_inv [of Map.empty] by simp
    have nr: "\<And>j t. RecoveredMail j t \<notin> set (mails ?wi)"
      by (simp add: world0_def)
    show ?thesis
      unfolding m by (rule while_no_recovery [OF inv nr])
  next
    assume "\<exists>t. snd (main se n a script) = Some t \<and> mails (fst (main se n a script)) = [] \<and>
        pings (fst (main se n a script)) = [] \<and> history (fst (main se n a script)) = []"
    then show ?thesis by auto
  qed
qed


lemma flip_to_offline_raises:
  assumes "status w i = Some s" and "online s = Some True"
    and "ping_outcome e = Returns False"
    and "db_transition e = Returns ()" and "db_cycle e = Returns ()"
  shows "snd (main_host a i e w) = Some TypeError"
    and "mails (fst (main_host a i e w)) = mails w"
  using assms
  by (simp_all add: host_raises host_mails blocks_raises blocks_mails observe_raises
      observe_record alerts_raises_eq alerts_mails)

lemma no_change_pass_history:
  assumes "status w i = Some s" and "online s = Some up"
    and "ping_outcome e = Returns up" and "db_cycle e = Returns ()"
  shows "history (fst (main_host a i e w)) = history w @ [(i, state_name up, Obj (changed s))]"
proof -
  let ?wp = "w\<lparr>pings := pings w @ [i]\<rparr>"
  have obs: "main_observe i up e ?wp s = ((?wp, s), None)"
    using assms(2) by (simp add: main_observe_def)
  have "history (fst (fst (main_blocks a i up e ?wp s))) =
      history w @ [(i, state_name up, Obj (changed s))]"
    using assms(4)
    by (simp add: blocks_unfold obs Let_def alerts_frame)
       (simp add: main_publish_def log_status_change_def Let_def)
  with assms(1,3) show ?thesis
    by (simp add: main_host_def Let_def case_prod_beta)
qed

subsection \<open>A failed delivery, and what the dashboard is given\<close>



lemma observe_trace_last:
  "main_observe_trace i up e w s \<noteq> [] \<Longrightarrow>
   last (main_observe_trace i up e w s) =
     put i (snd (fst (main_observe i up e w s))) (fst (fst (main_observe i up e w s)))"
  by (auto simp add: main_observe_trace_def main_observe_def Let_def case_prod_beta
      split: if_splits)

lemma alerts_published:
  "controller_status (fst (fst (main_handle_alerts a i up e w s))) = controller_status w"
  by (simp add: main_handle_alerts_def try_send_email_def Let_def
      split: sum.splits option.splits outcome.splits)

lemma publish_published:
  "controller_status (fst (fst (main_publish i up e w s))) = (controller_status w)(i \<mapsto> Live)"
  by (simp add: main_publish_def log_status_change_def Let_def split: outcome.splits)

lemma blocks_published:
  "snd (main_observe i up e w s) = None \<Longrightarrow>
   controller_status (fst (fst (main_blocks a i up e w s))) i = Some Live"
  by (simp add: blocks_cases publish_published alerts_published)

lemma host_published:
  assumes "status w i = Some s" and "ping_outcome e = Returns up"
    and "snd (main_observe i up e (w\<lparr>pings := pings w @ [i]\<rparr>) s) = None"
  shows "controller_status (fst (main_host a i e w)) i = Some Live"
  using assms blocks_published [of i up e "w\<lparr>pings := pings w @ [i]\<rparr>" s a]
  by (simp add: main_host_def Let_def case_prod_beta)

section \<open>The claims\<close>

text \<open>
  C3. After every pass of the loop body, whatever branch it takes and however it ends
  (normally or with an exception), \<open>alerted\<close> is true only in a record whose state is
  offline. First conjunct: in every state the process reaches from its start, after any
  number of cycles. Second conjunct: one pass of the loop body for address \<open>i\<close> keeps the
  invariant of the record of \<open>i\<close> and touches no other record.
\<close>

theorem alerted_only_while_offline:
  "(status (fst (main se n a script)) j = Some s \<longrightarrow> alerted_inv s) \<and>
   (status w i = Some s0 \<and> alerted_inv s0 \<longrightarrow>
      (\<exists>s1. status (fst (main_host a i e w)) i = Some s1 \<and> alerted_inv s1) \<and>
      (\<forall>j. j \<noteq> i \<longrightarrow> status (fst (main_host a i e w)) j = status w j))"
  using main_inv [of se n a script j s] host_keeps_inv [of w i s0 a e] host_other [of _ i a e w]
  by blast

theorem alerted_only_while_offline_witness:
  "status (fst (main (start_ok [''10.0.0.1'']) 30 3
      [cycle (answers False 0), cycle (answers False 3000000)])) ''10.0.0.1''
     = Some \<lparr>online = Some False, changed = Naive 0, alerted = True\<rparr> \<and>
   alerted_inv \<lparr>online = Some False, changed = Naive 0, alerted = True\<rparr> \<and>
   (\<exists>s1. status (fst (main_host 3 ''10.0.0.1'' (answers False 6000000)
        (world0\<lparr>status := [''10.0.0.1'' \<mapsto> \<lparr>online = Some False, changed = Naive 0, alerted = True\<rparr>]\<rparr>)))
        ''10.0.0.1'' = Some s1 \<and> alerted_inv s1)"
proof -
  let ?s = "\<lparr>online = Some False, changed = Naive 0, alerted = True\<rparr>"
  let ?w = "world0\<lparr>status := [''10.0.0.1'' \<mapsto> ?s]\<rparr>"
  have run: "status (fst (main (start_ok [''10.0.0.1'']) 30 3
      [cycle (answers False 0), cycle (answers False 3000000)])) ''10.0.0.1'' = Some ?s"
    by (simp add: run_defs)
  have w: "status ?w ''10.0.0.1'' = Some ?s"
    by (simp add: world0_def)
  from alerted_only_while_offline
         [of "start_ok [''10.0.0.1'']" 30 3
             "[cycle (answers False 0), cycle (answers False 3000000)]" "''10.0.0.1''" ?s
             ?w "''10.0.0.1''" ?s "answers False 6000000"]
  have inv: "alerted_inv ?s"
    and step: "alerted_inv ?s \<longrightarrow> (\<exists>s1. status (fst (main_host 3 ''10.0.0.1'' (answers False 6000000) ?w))
        ''10.0.0.1'' = Some s1 \<and> alerted_inv s1)"
    using run w by blast+
  from run inv step show ?thesis by blast
qed

text \<open>
  C6. One pass of the loop body for a record whose state is already determined leaves
  \<open>changed\<close> as it was when the probe result equals the current state; and whenever a
  pass leaves \<open>changed\<close> with another value, the state went through one of the four
  transitions Unknown to Online, Unknown to Offline, Online to Offline, Offline to Online.
\<close>

theorem changed_only_on_transition:
  assumes "status w i = Some s"
  shows "\<exists>s'. status (fst (main_host a i e w)) i = Some s' \<and>
     (\<forall>up. ping_outcome e = Returns up \<and> online s = Some up \<longrightarrow> changed s' = changed s) \<and>
     (changed s' \<noteq> changed s \<longrightarrow>
        (online s, online s') \<in> {(None, Some True), (None, Some False),
                                  (Some True, Some False), (Some False, Some True)})"
proof (cases "ping_outcome e")
  case (Raises x)
  with assms show ?thesis by (simp add: host_status)
next
  case (Returns up)
  let ?s1 = "snd (fst (main_blocks a i up e (w\<lparr>pings := pings w @ [i]\<rparr>) s))"
  have st: "status (fst (main_host a i e w)) i = Some ?s1"
    using Returns assms by (simp add: host_status)
  have same: "online s = Some up \<Longrightarrow> changed ?s1 = changed s"
    by (simp add: blocks_changed)
  have onl: "online ?s1 = Some up"
    by (rule blocks_online)
  have diff: "changed ?s1 \<noteq> changed s \<Longrightarrow> online s \<noteq> Some up"
    using same by blast
  have trans: "changed ?s1 \<noteq> changed s \<Longrightarrow>
      (online s, online ?s1) \<in> {(None, Some True), (None, Some False),
                                  (Some True, Some False), (Some False, Some True)}"
  proof -
    assume "changed ?s1 \<noteq> changed s"
    then have "online s \<noteq> Some up" by (rule diff)
    then show ?thesis
      unfolding onl by (cases "online s"; cases up) auto
  qed
  from st same trans Returns show ?thesis by auto
qed

theorem changed_only_on_transition_witness:
  "status (world0\<lparr>status := [''10.0.0.1'' \<mapsto> \<lparr>online = Some True, changed = Naive 0, alerted = False\<rparr>]\<rparr>)
      ''10.0.0.1'' = Some \<lparr>online = Some True, changed = Naive 0, alerted = False\<rparr> \<and>
   ping_outcome (answers True 30000000) = Returns True \<and>
   (\<exists>s'. status (fst (main_host 300 ''10.0.0.1'' (answers True 30000000)
        (world0\<lparr>status := [''10.0.0.1'' \<mapsto> \<lparr>online = Some True, changed = Naive 0, alerted = False\<rparr>]\<rparr>)))
        ''10.0.0.1'' = Some s' \<and> changed s' = Naive 0) \<and>
   (\<exists>s'. status (fst (main_host 300 ''10.0.0.1'' (answers False 30000000)
        (world0\<lparr>status := [''10.0.0.1'' \<mapsto> \<lparr>online = Some True, changed = Naive 0, alerted = False\<rparr>]\<rparr>)))
        ''10.0.0.1'' = Some s' \<and> changed s' \<noteq> Naive 0 \<and> online s' = Some False)"
proof -
  let ?s = "\<lparr>online = Some True, changed = Naive 0, alerted = False\<rparr>"
  let ?w = "world0\<lparr>status := [''10.0.0.1'' \<mapsto> ?s]\<rparr>"
  have w: "status ?w ''10.0.0.1'' = Some ?s" by (simp add: world0_def)
  have p: "ping_outcome (answers True 30000000) = Returns True" by (simp add: answers_def)
  have a: "\<exists>s'. status (fst (main_host 300 ''10.0.0.1'' (answers True 30000000) ?w)) ''10.0.0.1'' = Some s'
      \<and> changed s' = Naive 0"
    using changed_only_on_transition [OF w, of 300 "answers True 30000000"] p by auto
  have flip: "status (fst (main_host 300 ''10.0.0.1'' (answers False 30000000) ?w)) ''10.0.0.1''
      = Some \<lparr>online = Some False, changed = Aware 30000000, alerted = False\<rparr>"
    by (simp add: run_defs)
  from w p a flip show ?thesis by simp
qed

text \<open>
  C10. The first observation (the record's state is Unknown) sets the state to the probe
  result and \<open>changed\<close> to the clock reading, and the block changes nothing else: no log
  line, no history row, \<open>alerted\<close> as it was, which is false in every record that keeps
  the invariant. In the whole pass of the loop body that makes the first observation, no
  line "changed state" is logged and the only row inserted is the per-cycle one of line
  234, whose third field is the datetime object.
\<close>

theorem first_observation:
  assumes "online s = None"
  shows "main_observe i up e w s =
           ((w, s\<lparr>online := Some up, changed := utcnow (now_observe e)\<rparr>), None) \<and>
         (alerted_inv s \<longrightarrow> \<not> alerted (snd (fst (main_observe i up e w s)))) \<and>
         (status w i = Some s \<and> ping_outcome e = Returns up \<longrightarrow>
            (\<exists>s'. status (fst (main_host a i e w)) i = Some s' \<and> online s' = Some up \<and>
                  changed s' = utcnow (now_observe e)) \<and>
            (\<exists>ls. logged (fst (main_host a i e w)) = logged w @ ls \<and>
                  (\<forall>j st. Warning_changed j st \<notin> set ls)) \<and>
            history (fst (main_host a i e w)) =
              (case db_cycle e of
                 Returns u \<Rightarrow> history w @ [(i, state_name up, Obj (utcnow (now_observe e)))]
               | Raises x \<Rightarrow> history w))"
proof (intro conjI impI)
  show obs: "main_observe i up e w s =
      ((w, s\<lparr>online := Some up, changed := utcnow (now_observe e)\<rparr>), None)"
    using assms by (simp add: main_observe_def)
  show "\<not> alerted (snd (fst (main_observe i up e w s)))" if "alerted_inv s"
    using that assms by (simp add: obs alerted_inv_def)
next
  assume h: "status w i = Some s \<and> ping_outcome e = Returns up"
  let ?w0 = "w\<lparr>pings := pings w @ [i]\<rparr>"
  let ?s1 = "s\<lparr>online := Some up, changed := utcnow (now_observe e)\<rparr>"
  have obs: "main_observe i up e ?w0 s = ((?w0, ?s1), None)"
    using assms by (simp add: main_observe_def)
  show "\<exists>s'. status (fst (main_host a i e w)) i = Some s' \<and> online s' = Some up \<and>
                  changed s' = utcnow (now_observe e)"
    using h assms by (simp add: host_status blocks_online blocks_changed)
  have hist: "history (fst (fst (main_blocks a i up e ?w0 s))) =
      (case db_cycle e of
         Returns u \<Rightarrow> history w @ [(i, state_name up, Obj (utcnow (now_observe e)))]
       | Raises x \<Rightarrow> history w)"
    by (simp add: blocks_unfold obs Let_def alerts_frame)
       (simp add: main_publish_def log_status_change_def Let_def split: outcome.splits)
  show "history (fst (main_host a i e w)) =
      (case db_cycle e of
         Returns u \<Rightarrow> history w @ [(i, state_name up, Obj (utcnow (now_observe e)))]
       | Raises x \<Rightarrow> history w)"
    using h hist by (simp add: main_host_def Let_def case_prod_beta)
  have lg: "\<exists>ls. logged (fst (fst (main_blocks a i up e ?w0 s))) = logged w @ ls \<and>
        (\<forall>j st. Warning_changed j st \<notin> set ls)"
    using alerts_logged [of a i up e "fst (fst (main_publish i up e ?w0 ?s1))" ?s1]
    by (auto simp add: blocks_unfold obs Let_def publish_frame publish_record)
  show "\<exists>ls. logged (fst (main_host a i e w)) = logged w @ ls \<and>
                  (\<forall>j st. Warning_changed j st \<notin> set ls)"
    using h lg by (simp add: main_host_def Let_def case_prod_beta)
qed

theorem first_observation_witness:
  "online \<lparr>online = None, changed = Aware 0, alerted = False\<rparr> = None \<and>
   alerted_inv \<lparr>online = None, changed = Aware 0, alerted = False\<rparr> \<and>
   status (world0\<lparr>status := [''10.0.0.1'' \<mapsto> \<lparr>online = None, changed = Aware 0, alerted = False\<rparr>]\<rparr>)
     ''10.0.0.1'' = Some \<lparr>online = None, changed = Aware 0, alerted = False\<rparr> \<and>
   ping_outcome (answers False 5) = Returns False \<and>
   main_observe ''10.0.0.1'' False (answers False 5)
       (world0\<lparr>status := [''10.0.0.1'' \<mapsto> \<lparr>online = None, changed = Aware 0, alerted = False\<rparr>]\<rparr>)
       \<lparr>online = None, changed = Aware 0, alerted = False\<rparr>
     = ((world0\<lparr>status := [''10.0.0.1'' \<mapsto> \<lparr>online = None, changed = Aware 0, alerted = False\<rparr>]\<rparr>,
         \<lparr>online = Some False, changed = Naive 5, alerted = False\<rparr>), None) \<and>
   history (fst (main_host 300 ''10.0.0.1'' (answers False 5)
       (world0\<lparr>status := [''10.0.0.1'' \<mapsto> \<lparr>online = None, changed = Aware 0, alerted = False\<rparr>]\<rparr>)))
     = [(''10.0.0.1'', ''OFFLINE'', Obj (Naive 5))]"
proof -
  let ?s = "\<lparr>online = None, changed = Aware 0, alerted = False\<rparr>"
  let ?w = "world0\<lparr>status := [''10.0.0.1'' \<mapsto> ?s]\<rparr>"
  have h: "online ?s = None" by simp
  have i: "alerted_inv ?s" by (simp add: alerted_inv_def)
  have w: "status ?w ''10.0.0.1'' = Some ?s" by (simp add: world0_def)
  have p: "ping_outcome (answers False 5) = Returns False" by (simp add: answers_def)
  from first_observation [OF h, of "''10.0.0.1''" False "answers False 5" ?w 300] w p
  have "main_observe ''10.0.0.1'' False (answers False 5) ?w ?s
          = ((?w, ?s\<lparr>online := Some False, changed := utcnow (now_observe (answers False 5))\<rparr>), None)"
    and "history (fst (main_host 300 ''10.0.0.1'' (answers False 5) ?w)) =
          (case db_cycle (answers False 5) of
             Returns u \<Rightarrow> history ?w @ [(''10.0.0.1'', state_name False,
                            Obj (utcnow (now_observe (answers False 5))))]
           | Raises x \<Rightarrow> history ?w)"
    by blast+
  then have "main_observe ''10.0.0.1'' False (answers False 5) ?w ?s
          = ((?w, \<lparr>online = Some False, changed = Naive 5, alerted = False\<rparr>), None)"
    and "history (fst (main_host 300 ''10.0.0.1'' (answers False 5) ?w))
          = [(''10.0.0.1'', ''OFFLINE'', Obj (Naive 5))]"
    by (simp_all add: answers_def world0_def state_name_def)
  with h i w p show ?thesis by blast
qed

text \<open>
  C7. When a pass of the loop body attempts the alert mail and \<open>send_email\<close> raises an
  \<open>Exception\<close>, the pass ends normally with \<open>alerted\<close> still false; and in any later pass
  for that record in which the address is still offline and the threshold is still
  reached, the alert mail is attempted again, \<open>alerted\<close> becoming true exactly when that
  delivery succeeds.
\<close>

theorem alert_retried_after_failed_delivery:
  assumes st: "status w i = Some s"
    and m: "mails (fst (main_host a i e w)) = mails w @ [AlertMail i d]"
    and f: "mail_outcome e = Raises x" and ex: "is_Exception x"
  shows "\<exists>s' c. status (fst (main_host a i e w)) i = Some s' \<and> \<not> alerted s' \<and>
           online s' = Some False \<and> changed s' = Naive c \<and> snd (main_host a i e w) = None \<and>
           (\<forall>w2 e2. status w2 i = Some s' \<and> ping_outcome e2 = Returns False \<and>
                db_cycle e2 = Returns () \<and> seconds_ge (now_alert e2 - c) a \<longrightarrow>
              mails (fst (main_host a i e2 w2)) =
                mails w2 @ [AlertMail i (int_seconds (now_alert e2 - c))] \<and>
              (\<exists>s2. status (fst (main_host a i e2 w2)) i = Some s2 \<and>
                 (alerted s2 \<longleftrightarrow> mail_outcome e2 = Returns ())))"
proof -
  let ?w0 = "w\<lparr>pings := pings w @ [i]\<rparr>"
  obtain up where p: "ping_outcome e = Returns up"
    using m st by (cases "ping_outcome e") (simp_all add: host_mails)
  let ?s1 = "snd (fst (main_observe i up e ?w0 s))"
  have bm: "mails (fst (fst (main_blocks a i up e ?w0 s))) = mails w @ [AlertMail i d]"
    using m st p by (simp add: host_mails)
  have ok: "snd (main_observe i up e ?w0 s) = None" "db_cycle e = Returns ()"
    using bm by (auto simp add: blocks_mails split: if_splits)
  have am: "mails (fst (fst (main_handle_alerts a i up e ?w0 ?s1))) = mails w @ [AlertMail i d]"
    using bm ok by (simp add: blocks_mails)
  have down: "\<not> up"
    using am by (auto simp add: alerts_mails split: if_splits)
  obtain c where c: "changed ?s1 = Naive c" "seconds_ge (now_alert e - c) a" "\<not> alerted ?s1"
    using am down by (cases "changed ?s1") (auto simp add: alerts_mails split: if_splits)
  let ?s' = "snd (fst (main_blocks a i up e ?w0 s))"
  have rec: "?s' = ?s1\<lparr>alerted := False\<rparr>"
    using ok down c f by (simp add: blocks_record alerts_record_eq)
  have s': "status (fst (main_host a i e w)) i = Some ?s'"
    using st p by (rule host_record)
  have na: "\<not> alerted ?s'" using rec by simp
  have on: "online ?s' = Some False" using down by (simp add: blocks_online)
  have ch: "changed ?s' = Naive c" using rec c(1) by simp
  have nr: "snd (main_host a i e w) = None"
    using st p ok down c f ex by (simp add: host_raises blocks_raises alerts_raises_eq)
  have again: "\<forall>w2 e2. status w2 i = Some ?s' \<and> ping_outcome e2 = Returns False \<and>
                db_cycle e2 = Returns () \<and> seconds_ge (now_alert e2 - c) a \<longrightarrow>
              mails (fst (main_host a i e2 w2)) =
                mails w2 @ [AlertMail i (int_seconds (now_alert e2 - c))] \<and>
              (\<exists>s2. status (fst (main_host a i e2 w2)) i = Some s2 \<and>
                 (alerted s2 \<longleftrightarrow> mail_outcome e2 = Returns ()))"
    using no_change_pass [OF _ on na ch] by blast
  from s' na on ch nr again show ?thesis by blast
qed

theorem alert_retried_after_failed_delivery_witness:
  "status (world0\<lparr>status := [''10.0.0.1'' \<mapsto> \<lparr>online = Some False, changed = Naive 0, alerted = False\<rparr>]\<rparr>)
     ''10.0.0.1'' = Some \<lparr>online = Some False, changed = Naive 0, alerted = False\<rparr> \<and>
   mails (fst (main_host 3 ''10.0.0.1'' ((answers False 3000000)\<lparr>mail_outcome := Raises ExternalError\<rparr>)
       (world0\<lparr>status := [''10.0.0.1'' \<mapsto> \<lparr>online = Some False, changed = Naive 0, alerted = False\<rparr>]\<rparr>)))
     = mails (world0\<lparr>status := [''10.0.0.1'' \<mapsto> \<lparr>online = Some False, changed = Naive 0, alerted = False\<rparr>]\<rparr>)
         @ [AlertMail ''10.0.0.1'' 3] \<and>
   mail_outcome ((answers False 3000000)\<lparr>mail_outcome := Raises ExternalError\<rparr>) = Raises ExternalError \<and>
   is_Exception ExternalError \<and>
   seconds_ge (now_alert (answers False 6000000) - 0) 3 \<and>
   mails (fst (main_host 3 ''10.0.0.1'' (answers False 6000000)
       (fst (main_host 3 ''10.0.0.1'' ((answers False 3000000)\<lparr>mail_outcome := Raises ExternalError\<rparr>)
          (world0\<lparr>status := [''10.0.0.1'' \<mapsto> \<lparr>online = Some False, changed = Naive 0, alerted = False\<rparr>]\<rparr>)))))
     = [AlertMail ''10.0.0.1'' 3, AlertMail ''10.0.0.1'' 6]"
proof -
  let ?s = "\<lparr>online = Some False, changed = Naive 0, alerted = False\<rparr>"
  let ?w = "world0\<lparr>status := [''10.0.0.1'' \<mapsto> ?s]\<rparr>"
  let ?e = "(answers False 3000000)\<lparr>mail_outcome := Raises ExternalError\<rparr>"
  let ?w1 = "fst (main_host 3 ''10.0.0.1'' ?e ?w)"
  let ?e2 = "answers False 6000000"
  have st: "status ?w ''10.0.0.1'' = Some ?s" by (simp add: world0_def)
  have m: "mails ?w1 = mails ?w @ [AlertMail ''10.0.0.1'' 3]" by (simp add: run_defs)
  have f: "mail_outcome ?e = Raises ExternalError" by (simp add: answers_def)
  have ex: "is_Exception ExternalError" by simp
  have ge: "seconds_ge (now_alert ?e2 - 0) 3" by (simp add: seconds_ge_def answers_def)
  have s1: "status ?w1 ''10.0.0.1'' = Some ?s" by (simp add: run_defs)
  have e2: "ping_outcome ?e2 = Returns False" "db_cycle ?e2 = Returns ()"
    by (simp_all add: answers_def)
  obtain s' c where r: "status ?w1 ''10.0.0.1'' = Some s'" "changed s' = Naive c"
    and again: "\<forall>w2 e2. status w2 ''10.0.0.1'' = Some s' \<and> ping_outcome e2 = Returns False \<and>
                db_cycle e2 = Returns () \<and> seconds_ge (now_alert e2 - c) 3 \<longrightarrow>
              mails (fst (main_host 3 ''10.0.0.1'' e2 w2)) =
                mails w2 @ [AlertMail ''10.0.0.1'' (int_seconds (now_alert e2 - c))] \<and>
              (\<exists>s2. status (fst (main_host 3 ''10.0.0.1'' e2 w2)) ''10.0.0.1'' = Some s2 \<and>
                 (alerted s2 \<longleftrightarrow> mail_outcome e2 = Returns ()))"
    using alert_retried_after_failed_delivery [OF st m f ex] by blast
  from r(1) s1 have "s' = ?s" by simp
  with r(2) have c: "c = 0" by simp
  from again r(1) e2 ge c
  have "mails (fst (main_host 3 ''10.0.0.1'' ?e2 ?w1)) =
          mails ?w1 @ [AlertMail ''10.0.0.1'' (int_seconds (now_alert ?e2 - 0))]"
    by blast
  then have "mails (fst (main_host 3 ''10.0.0.1'' ?e2 ?w1)) =
          [AlertMail ''10.0.0.1'' 3, AlertMail ''10.0.0.1'' 6]"
    unfolding m by (simp add: world0_def answers_def int_seconds_def)
  with st m f ex ge show ?thesis by blast
qed

text \<open>
  C9. When \<open>load_ips\<close> returns an empty list, or one of the five email variables is
  missing from the environment, the process ends before the loop starts, with an exit
  status that is not zero (\<open>sys.exit(1)\<close>, or the \<open>EnvironmentError\<close> that nothing
  catches), and no address is ever pinged, whatever the outside would have answered.
\<close>

theorem startup_failure_exits:
  assumes "load_ips_outcome se = Returns [] \<or> (\<exists>k \<in> set email_keys. getenv se k = None)"
  shows "\<exists>t. snd (main se n a script) = Some t \<and> exit_status t \<noteq> 0 \<and>
             pings (fst (main se n a script)) = []"
proof (cases "init_db_first se")
  case (Raises x)
  then show ?thesis by (simp add: main_def world0_def exit_status_uncaught)
next
  case r1: (Returns u)
  show ?thesis
  proof (cases "load_ips_outcome se")
    case (Raises x)
    with r1 show ?thesis by (simp add: main_def world0_def exit_status_uncaught)
  next
    case r2: (Returns ips)
    show ?thesis
    proof (cases "ips = []")
      case True
      with r1 r2 show ?thesis by (simp add: main_def world0_def)
    next
      case False
      with assms r2 have "\<exists>k \<in> set email_keys. getenv se k = None" by simp
      then obtain m where "get_email_cfg (py_int se) (getenv se) = Inl (EnvironmentError m)"
        using get_email_cfg_missing by blast
      with r1 r2 False show ?thesis by (simp add: main_def world0_def)
    qed
  qed
qed

theorem startup_failure_exits_witness:
  "load_ips_outcome (start_ok []) = Returns [] \<and>
   snd (main (start_ok []) 30 300 [cycle (answers True 0)]) = Some (SysExit 1) \<and>
   exit_status (SysExit 1) \<noteq> 0 \<and>
   pings (fst (main (start_ok []) 30 300 [cycle (answers True 0)])) = [] \<and>
   ''EMAIL_PASS'' \<in> set email_keys \<and>
   getenv ((start_ok [''10.0.0.1''])\<lparr>getenv := (getenv (start_ok [''10.0.0.1'']))(''EMAIL_PASS'' := None)\<rparr>)
     ''EMAIL_PASS'' = None \<and>
   snd (main ((start_ok [''10.0.0.1''])\<lparr>getenv := (getenv (start_ok [''10.0.0.1'']))(''EMAIL_PASS'' := None)\<rparr>)
          30 300 [cycle (answers True 0)])
     = Some (Uncaught (EnvironmentError ''Missing environment variables: EMAIL_PASS'')) \<and>
   pings (fst (main ((start_ok [''10.0.0.1''])\<lparr>getenv := (getenv (start_ok [''10.0.0.1'']))(''EMAIL_PASS'' := None)\<rparr>)
          30 300 [cycle (answers True 0)])) = []"
proof -
  let ?se = "(start_ok [''10.0.0.1''])\<lparr>getenv := (getenv (start_ok [''10.0.0.1'']))(''EMAIL_PASS'' := None)\<rparr>"
  let ?script = "[cycle (answers True 0)]"
  have e: "load_ips_outcome (start_ok []) = Returns []" by (simp add: start_ok_def)
  have k: "''EMAIL_PASS'' \<in> set email_keys" by (simp add: email_keys_def)
  have g: "getenv ?se ''EMAIL_PASS'' = None" by simp
  have r1: "snd (main (start_ok []) 30 300 ?script) = Some (SysExit 1)"
    by (simp add: main_def start_ok_def world0_def)
  have r2: "snd (main ?se 30 300 ?script)
      = Some (Uncaught (EnvironmentError ''Missing environment variables: EMAIL_PASS''))"
    by (simp add: main_def start_ok_def world0_def get_email_cfg_def email_keys_def Let_def)
  from startup_failure_exits [of "start_ok []" 30 300 ?script] e
  have p1: "pings (fst (main (start_ok []) 30 300 ?script)) = []" by blast
  from startup_failure_exits [of ?se 30 300 ?script] k g
  have p2: "pings (fst (main ?se 30 300 ?script)) = []" by blast
  from e k g r1 r2 p1 p2 show ?thesis by simp
qed




text \<open>
  C1. The claim asks for exactly one recovery mail when an address comes back online
  after an outage for which an alert was sent. The code sends none: the state change
  (line 224) clears \<open>alerted\<close> before the recovery block (line 252) reads it, so in no run
  of the program is a recovery mail ever attempted. The run below has the address offline
  from the first cycle, alerted at the threshold of 3 seconds, and online again one second
  later: the only mail is the alert.
\<close>

theorem recovery_mail_never_sent:
  "RecoveredMail j t \<notin> set (mails (fst (main se n a script))) \<and>
   status (fst (main (start_ok [''10.0.0.1'']) 30 3
      [cycle (answers False 0), cycle (answers False 3000000)])) ''10.0.0.1''
     = Some \<lparr>online = Some False, changed = Naive 0, alerted = True\<rparr> \<and>
   mails (fst (main (start_ok [''10.0.0.1'']) 30 3
      [cycle (answers False 0), cycle (answers False 3000000)]))
     = [AlertMail ''10.0.0.1'' 3] \<and>
   status (fst (main (start_ok [''10.0.0.1'']) 30 3
      [cycle (answers False 0), cycle (answers False 3000000), cycle (answers True 4000000)]))
      ''10.0.0.1''
     = Some \<lparr>online = Some True, changed = Aware 4000000, alerted = False\<rparr> \<and>
   mails (fst (main (start_ok [''10.0.0.1'']) 30 3
      [cycle (answers False 0), cycle (answers False 3000000), cycle (answers True 4000000)]))
     = [AlertMail ''10.0.0.1'' 3] \<and>
   logged (fst (main (start_ok [''10.0.0.1'']) 30 3
      [cycle (answers False 0), cycle (answers False 3000000), cycle (answers True 4000000)]))
     = [Info_monitoring 1 30 3, Error_alert_sent ''10.0.0.1'',
        Warning_changed ''10.0.0.1'' ''ONLINE''] \<and>
   snd (main (start_ok [''10.0.0.1'']) 30 3
      [cycle (answers False 0), cycle (answers False 3000000), cycle (answers True 4000000)])
     = None"
proof (intro conjI)
  show "RecoveredMail j t \<notin> set (mails (fst (main se n a script)))"
    by (rule main_no_recovery)
qed (simp_all add: run_defs)

text \<open>
  C2. The claim asks for the alert once an outage reaches the threshold. An outage that
  begins after the address was seen online never gets there: the state change stores an
  aware \<open>changed\<close> (line 223), the alert block subtracts it from a naive \<open>utcnow()\<close>
  (line 238), Python raises \<open>TypeError\<close>, and the handler around the loop ends the
  process with status 2 at the first offline probe. With a threshold of 0 seconds the
  record of that pass is offline, not alerted and has reached the threshold, and still no
  alert is attempted.
\<close>

theorem outage_after_online_ends_process:
  "snd (main (start_ok [''10.0.0.1'']) 30 60
      [cycle (answers True 0), cycle (answers False 30000000), cycle (answers False 60000000),
       cycle (answers False 90000000), cycle (answers False 120000000)])
     = Some (SysExit 2) \<and>
   mails (fst (main (start_ok [''10.0.0.1'']) 30 60
      [cycle (answers True 0), cycle (answers False 30000000), cycle (answers False 60000000),
       cycle (answers False 90000000), cycle (answers False 120000000)]))
     = [] \<and>
   pings (fst (main (start_ok [''10.0.0.1'']) 30 60
      [cycle (answers True 0), cycle (answers False 30000000), cycle (answers False 60000000),
       cycle (answers False 90000000), cycle (answers False 120000000)]))
     = [''10.0.0.1'', ''10.0.0.1''] \<and>
   logged (fst (main (start_ok [''10.0.0.1'']) 30 60
      [cycle (answers True 0), cycle (answers False 30000000), cycle (answers False 60000000),
       cycle (answers False 90000000), cycle (answers False 120000000)]))
     = [Info_monitoring 1 30 60, Warning_changed ''10.0.0.1'' ''OFFLINE'',
        Exception_unhandled TypeError] \<and>
   status (fst (main (start_ok [''10.0.0.1'']) 30 0
      [cycle (answers True 0), cycle (answers False 30000000)])) ''10.0.0.1''
     = Some \<lparr>online = Some False, changed = Aware 30000000, alerted = False\<rparr> \<and>
   seconds_ge (30000000 - 30000000) 0 \<and>
   mails (fst (main (start_ok [''10.0.0.1'']) 30 0
      [cycle (answers True 0), cycle (answers False 30000000)])) = []"
  by (simp add: run_defs)

text \<open>
  C4. The claim asks for one history row per state change and none when the probe result
  equals the current state. The code inserts a row in every pass of the loop body (line
  234), and a second one when the state changes (line 228): three cycles without any
  change leave three rows, and a single change from offline to online leaves two rows for
  that change.
\<close>

theorem history_row_on_every_cycle:
  "history (fst (main (start_ok [''10.0.0.1'']) 30 300
      [cycle (answers True 0), cycle (answers True 30000000), cycle (answers True 60000000)]))
     = [(''10.0.0.1'', ''ONLINE'', Obj (Naive 0)),
        (''10.0.0.1'', ''ONLINE'', Obj (Naive 0)),
        (''10.0.0.1'', ''ONLINE'', Obj (Naive 0))] \<and>
   history (fst (main (start_ok [''10.0.0.1'']) 30 300
      [cycle (answers False 0), cycle (answers True 30000000)]))
     = [(''10.0.0.1'', ''OFFLINE'', Obj (Naive 0)),
        (''10.0.0.1'', ''ONLINE'', Iso (Aware 30000000)),
        (''10.0.0.1'', ''ONLINE'', Obj (Aware 30000000))]"
  by (simp add: run_defs)

text \<open>
  C8, as the code has it. The dashboard is not given a copy. Once a pass of the loop
  body for an address has got past the observation (line 231), the entry of
  \<open>controller_status\<close> for that address is the record object of the loop itself, so
  what the dashboard shows after the pass is the record as the loop left it. During a
  state change of a record published that way, the dashboard shows the old state and the
  old \<open>changed\<close> before line 222, the new state with the old \<open>changed\<close> after line 222,
  and the new state with the new \<open>changed\<close> at the end of the observation.
\<close>

theorem dashboard_reads_live_record:
  "(status w i = Some s \<and> ping_outcome e = Returns up \<and>
    snd (main_observe i up e (w\<lparr>pings := pings w @ [i]\<rparr>) s) = None \<longrightarrow>
      controller_status (fst (main_host a i e w)) i = Some Live \<and>
      info (fst (main_host a i e w)) i = status (fst (main_host a i e w)) i \<and>
      dashboard (fst (main_host a i e w)) i =
        map_option row_of (status (fst (main_host a i e w)) i)) \<and>
   (status w i = Some s \<and> ping_outcome e = Returns up \<and>
    controller_status w i = Some Live \<and> online s = Some (\<not> up) \<longrightarrow>
      dashboard w i = Some (state_name (\<not> up), changed s) \<and>
      dashboard (hd (main_host_trace i e w)) i = Some (state_name up, changed s) \<and>
      dashboard (last (main_host_trace i e w)) i =
        Some (state_name up, now_UTC (now_observe e)) \<and>
      last (main_host_trace i e w) =
        put i (snd (fst (main_observe i up e (w\<lparr>pings := pings w @ [i]\<rparr>) s)))
          (fst (fst (main_observe i up e (w\<lparr>pings := pings w @ [i]\<rparr>) s))))"
proof (intro conjI impI)
  assume h: "status w i = Some s \<and> ping_outcome e = Returns up \<and>
    snd (main_observe i up e (w\<lparr>pings := pings w @ [i]\<rparr>) s) = None"
  then show live: "controller_status (fst (main_host a i e w)) i = Some Live"
    using host_published by blast
  then show "info (fst (main_host a i e w)) i = status (fst (main_host a i e w)) i"
    by (simp add: info_def)
  with live show "dashboard (fst (main_host a i e w)) i =
        map_option row_of (status (fst (main_host a i e w)) i)"
    by (simp add: dashboard_def)
next
  assume h: "status w i = Some s \<and> ping_outcome e = Returns up \<and>
    controller_status w i = Some Live \<and> online s = Some (\<not> up)"
  let ?wp = "w\<lparr>pings := pings w @ [i]\<rparr>"
  have tr: "main_host_trace i e w = main_observe_trace i up e ?wp s"
    using h by (simp add: main_host_trace_def Let_def)
  from h show "dashboard w i = Some (state_name (\<not> up), changed s)"
    by (cases up) (simp_all add: dashboard_def info_def row_of_def state_name_def)
  from h show "dashboard (hd (main_host_trace i e w)) i = Some (state_name up, changed s)"
    unfolding tr
    by (cases up)
       (simp_all add: main_observe_trace_def Let_def dashboard_def info_def put_def row_of_def
          state_name_def)
  from h show "dashboard (last (main_host_trace i e w)) i =
        Some (state_name up, now_UTC (now_observe e))"
    unfolding tr
    by (cases up; cases "db_transition e")
       (simp_all add: main_observe_trace_def Let_def dashboard_def info_def put_def row_of_def
          state_name_def log_status_change_def)
  from h have "main_observe_trace i up e ?wp s \<noteq> []"
    by (cases up) (simp_all add: main_observe_trace_def Let_def)
  then show "last (main_host_trace i e w) =
        put i (snd (fst (main_observe i up e ?wp s))) (fst (fst (main_observe i up e ?wp s)))"
    unfolding tr by (rule observe_trace_last)
qed

theorem dashboard_reads_live_record_witness:
  "status (fst (main (start_ok [''10.0.0.1'']) 30 300 [cycle (answers False 0)])) ''10.0.0.1''
     = Some \<lparr>online = Some False, changed = Naive 0, alerted = False\<rparr> \<and>
   controller_status (fst (main (start_ok [''10.0.0.1'']) 30 300 [cycle (answers False 0)]))
     ''10.0.0.1'' = Some Live \<and>
   ping_outcome (answers True 30000000) = Returns True \<and>
   online \<lparr>online = Some False, changed = Naive 0, alerted = False\<rparr> = Some (\<not> True) \<and>
   dashboard (fst (main_host 300 ''10.0.0.1'' (answers True 30000000)
       (fst (main (start_ok [''10.0.0.1'']) 30 300 [cycle (answers False 0)])))) ''10.0.0.1''
     = Some (''ONLINE'', Aware 30000000) \<and>
   dashboard (hd (main_host_trace ''10.0.0.1'' (answers True 30000000)
       (fst (main (start_ok [''10.0.0.1'']) 30 300 [cycle (answers False 0)])))) ''10.0.0.1''
     = Some (''ONLINE'', Naive 0)"
proof -
  let ?wa = "fst (main (start_ok [''10.0.0.1'']) 30 300 [cycle (answers False 0)])"
  let ?s = "\<lparr>online = Some False, changed = Naive 0, alerted = False\<rparr>"
  let ?e = "answers True 30000000"
  have st: "status ?wa ''10.0.0.1'' = Some ?s" by (simp add: run_defs)
  have cs: "controller_status ?wa ''10.0.0.1'' = Some Live" by (simp add: run_defs)
  have p: "ping_outcome ?e = Returns True" by (simp add: answers_def)
  have ob: "snd (main_observe ''10.0.0.1'' True ?e (?wa\<lparr>pings := pings ?wa @ [''10.0.0.1'']\<rparr>) ?s) = None"
    by (simp add: observe_raises answers_def)
  have on: "online ?s = Some (\<not> True)" by simp
  have after: "status (fst (main_host 300 ''10.0.0.1'' ?e ?wa)) ''10.0.0.1''
      = Some \<lparr>online = Some True, changed = Aware 30000000, alerted = False\<rparr>"
    using st p by (simp add: host_status blocks_record observe_record observe_raises
        alerts_record_eq answers_def)
  from dashboard_reads_live_record [of ?wa "''10.0.0.1''" ?s ?e True 300] st cs p ob on
  have d1: "dashboard (fst (main_host 300 ''10.0.0.1'' ?e ?wa)) ''10.0.0.1'' =
        map_option row_of (status (fst (main_host 300 ''10.0.0.1'' ?e ?wa)) ''10.0.0.1'')"
    and d2: "dashboard (hd (main_host_trace ''10.0.0.1'' ?e ?wa)) ''10.0.0.1''
        = Some (state_name True, changed ?s)"
    by blast+
  from d1 after have "dashboard (fst (main_host 300 ''10.0.0.1'' ?e ?wa)) ''10.0.0.1''
      = Some (''ONLINE'', Aware 30000000)"
    by (simp add: row_of_def)
  moreover from d2 have "dashboard (hd (main_host_trace ''10.0.0.1'' ?e ?wa)) ''10.0.0.1''
      = Some (''ONLINE'', Naive 0)"
    by (simp add: state_name_def)
  ultimately show ?thesis using st cs p on by blast
qed

text \<open>
  C8, as the claim states it, fails: after one cycle the entry is the live record and not
  a copy, and in the next cycle, in which the address comes back online, a read after
  line 222 shows ONLINE with the time of the previous change.
\<close>

theorem snapshot_is_a_copy_counterexample:
  "controller_status (fst (main (start_ok [''10.0.0.1'']) 30 300 [cycle (answers False 0)]))
     ''10.0.0.1'' = Some Live \<and>
   status (fst (main (start_ok [''10.0.0.1'']) 30 300 [cycle (answers False 0)])) ''10.0.0.1''
     = Some \<lparr>online = Some False, changed = Naive 0, alerted = False\<rparr> \<and>
   dashboard (fst (main (start_ok [''10.0.0.1'']) 30 300 [cycle (answers False 0)])) ''10.0.0.1''
     = Some (''OFFLINE'', Naive 0) \<and>
   dashboard (hd (main_host_trace ''10.0.0.1'' (answers True 30000000)
       (fst (main (start_ok [''10.0.0.1'']) 30 300 [cycle (answers False 0)])))) ''10.0.0.1''
     = Some (''ONLINE'', Naive 0) \<and>
   dashboard (fst (main (start_ok [''10.0.0.1'']) 30 300
       [cycle (answers False 0), cycle (answers True 30000000)])) ''10.0.0.1''
     = Some (''ONLINE'', Aware 30000000)"
  by (simp add: run_defs dashboard_def info_def row_of_def main_host_trace_def
      main_observe_trace_def put_def)

end
